theory Spec2Isabelle
  imports Main "HOL-Library.Log_Nat"
begin

section \<open>Data model\<close>

text \<open>
  \<^verbatim>\<open>FishLandings.FishLanding\<close> and \<^verbatim>\<open>PollutionRecords.WaterQualityRecord\<close> are plain
  classes with fields; Python integers are unbounded, hence \<open>int\<close>. Both classes have a
  field \<^verbatim>\<open>year\<close>; the one of the water record is called \<open>wq_year\<close> here.
\<close>

record FishLanding =
  category :: string
  year :: int
  species :: string
  pounds :: int

section \<open>Exceptions and dictionaries\<close>

text \<open>
  The analyzer has no \<^verbatim>\<open>raise\<close> of its own; the exceptions it could meet are those of
  the operations it calls: reading a missing key (\<^verbatim>\<open>d[k]\<close>), dividing by zero, and
  \<^verbatim>\<open>math.sqrt\<close> of a negative number. Each is a value of \<open>py_error\<close>, and a function
  that may raise returns \<open>py_error + 'a\<close>.
\<close>

datatype py_error = KeyError | ZeroDivisionError | ValueError

text \<open>
  A Python \<^verbatim>\<open>dict\<close> keeps its keys in insertion order, and the code iterates over
  dictionaries and sums and sorts their values: a dictionary is an association list with
  one entry per key, in insertion order.
\<close>

type_synonym ('k, 'v) dict = "('k \<times> 'v) list"

definition dict_keys :: "('k, 'v) dict \<Rightarrow> 'k list" where
  "dict_keys d = map fst d"

definition dict_values :: "('k, 'v) dict \<Rightarrow> 'v list" where
  "dict_values d = map snd d"

text \<open>\<^verbatim>\<open>k in d\<close>\<close>

definition dict_contains :: "('k, 'v) dict \<Rightarrow> 'k \<Rightarrow> bool" where
  "dict_contains d k = (map_of d k \<noteq> None)"

text \<open>\<^verbatim>\<open>d[k]\<close>, which raises \<^verbatim>\<open>KeyError\<close> on a missing key\<close>

definition dict_get :: "('k, 'v) dict \<Rightarrow> 'k \<Rightarrow> py_error + 'v" where
  "dict_get d k = (case map_of d k of None \<Rightarrow> Inl KeyError | Some v \<Rightarrow> Inr v)"

text \<open>\<^verbatim>\<open>d.get(k, default)\<close>\<close>

definition dict_get_default :: "('k, 'v) dict \<Rightarrow> 'k \<Rightarrow> 'v \<Rightarrow> 'v" where
  "dict_get_default d k dflt = (case map_of d k of None \<Rightarrow> dflt | Some v \<Rightarrow> v)"

text \<open>\<^verbatim>\<open>d[k] = v\<close>: an existing key keeps its place, a new key goes last\<close>

fun dict_set :: "('k, 'v) dict \<Rightarrow> 'k \<Rightarrow> 'v \<Rightarrow> ('k, 'v) dict" where
  "dict_set [] k v = [(k, v)]"
| "dict_set ((k', v') # d) k v = (if k' = k then (k, v) # d else (k', v') # dict_set d k v)"

section \<open>Floating-point numbers\<close>

text \<open>
  A Python \<^verbatim>\<open>float\<close> is an IEEE 754 binary64 number. A finite one is modelled by the
  rational number it denotes (so \<^verbatim>\<open>0.0\<close> and \<^verbatim>\<open>-0.0\<close>, which Python's \<^verbatim>\<open>==\<close> does not
  tell apart, are the same value), and every operation returns the exact result rounded
  to the nearest binary64 number, ties to even: 53 significant bits, and no bit below
  the one of weight 2 to the power -1074 (the subnormal range). Infinities, NaN, the
  overflow of a result beyond the binary64 range and the \<^verbatim>\<open>OverflowError\<close> of converting
  an \<^verbatim>\<open>int\<close> beyond that range are not part of the model: it describes the runs whose
  numbers stay in range.
\<close>

type_synonym pyfloat = rat

definition pow2 :: "int \<Rightarrow> rat" where
  "pow2 k = 2 powi k"

text \<open>
  The binary exponent of \<open>x \<noteq> 0\<close>, that is the \<open>k\<close> with \<open>pow2 k \<le> \<bar>x\<bar> < pow2 (k + 1)\<close>,
  from the bit lengths of the numerator and the denominator.
\<close>

definition ilog2 :: "rat \<Rightarrow> int" where
  "ilog2 x =
     (let (p, q) = quotient_of \<bar>x\<bar>;
          k = bitlen p - bitlen q
      in if pow2 k \<le> \<bar>x\<bar> then k else k - 1)"

definition round_half_even :: "rat \<Rightarrow> int" where
  "round_half_even x =
     (let f = \<lfloor>x\<rfloor>; r = x - of_int f
      in if r < 1 / 2 then f else if 1 / 2 < r then f + 1 else if even f then f else f + 1)"

definition round_double :: "rat \<Rightarrow> pyfloat" where
  "round_double x =
     (if x = 0 then 0
      else let u = pow2 (max (ilog2 x - 52) (- 1074))
           in of_int (round_half_even (x / u)) * u)"

text \<open>An \<^verbatim>\<open>int\<close> operand of a mixed operation is converted first.\<close>

definition float_of_int :: "int \<Rightarrow> pyfloat" where
  "float_of_int i = round_double (of_int i)"

definition float_add :: "pyfloat \<Rightarrow> pyfloat \<Rightarrow> pyfloat" where
  "float_add a b = round_double (a + b)"

definition float_sub :: "pyfloat \<Rightarrow> pyfloat \<Rightarrow> pyfloat" where
  "float_sub a b = round_double (a - b)"

definition float_mul :: "pyfloat \<Rightarrow> pyfloat \<Rightarrow> pyfloat" where
  "float_mul a b = round_double (a * b)"

text \<open>\<^verbatim>\<open>a / b\<close> on floats, and on two \<^verbatim>\<open>int\<close>s (true division, correctly rounded)\<close>

definition float_truediv :: "pyfloat \<Rightarrow> pyfloat \<Rightarrow> py_error + pyfloat" where
  "float_truediv a b = (if b = 0 then Inl ZeroDivisionError else Inr (round_double (a / b)))"

definition int_truediv :: "int \<Rightarrow> int \<Rightarrow> py_error + pyfloat" where
  "int_truediv a b =
     (if b = 0 then Inl ZeroDivisionError else Inr (round_double (of_int a / of_int b)))"

text \<open>\<^verbatim>\<open>x ** 2\<close>, taken as the correctly rounded square\<close>

definition float_square :: "pyfloat \<Rightarrow> pyfloat" where
  "float_square x = round_double (x * x)"

text \<open>
  \<^verbatim>\<open>math.sqrt\<close>: the square root, correctly rounded. \<open>isqrt n\<close> is \<open>\<lfloor>\<surd>n\<rfloor>\<close>; the
  root of \<open>x\<close> is rounded by comparing \<open>x\<close>, scaled by the square of the unit in the
  last place, with the square of the midpoint between two neighbouring integers.
\<close>

function isqrt :: "int \<Rightarrow> int" where
  "isqrt n =
     (if n < 2 then n
      else let r = 2 * isqrt (n div 4) in if (r + 1) * (r + 1) \<le> n then r + 1 else r)"
  by pat_completeness auto
termination
  by (relation "measure nat") auto

definition round_sqrt :: "rat \<Rightarrow> int" where
  "round_sqrt t =
     (let f = isqrt \<lfloor>t\<rfloor>; h = (of_int f + 1 / 2) * (of_int f + 1 / 2)
      in if t < h then f else if h < t then f + 1 else if even f then f else f + 1)"

definition math_sqrt :: "pyfloat \<Rightarrow> py_error + pyfloat" where
  "math_sqrt x =
     (if x < 0 then Inl ValueError
      else if x = 0 then Inr 0
      else let u = pow2 (max (ilog2 x div 2 - 52) (- 1074))
           in Inr (of_int (round_sqrt (x / (u * u))) * u))"

text \<open>
  \<^verbatim>\<open>sum(xs)\<close> of floats: the items are added from left to right, starting from the
  \<^verbatim>\<open>int\<close> 0, each addition rounded (the summation of CPython up to 3.11; later
  versions carry a compensation term along).
\<close>

definition float_sum :: "pyfloat list \<Rightarrow> pyfloat" where
  "float_sum xs = foldl float_add (float_of_int 0) xs"


record WaterQualityRecord =
  station_name :: string
  date :: string
  dissolved_oxygen :: pyfloat
  water_temp :: "pyfloat option"
  wq_year :: int

section \<open>Aggregation of landings\<close>

text \<open>
  \<^verbatim>\<open>if category:\<close> tests the truthiness of the argument: \<^verbatim>\<open>None\<close> and the empty
  string both mean "no filter". A record is skipped when a filter is given and the
  record's category differs from it.
\<close>

definition skipped :: "string option \<Rightarrow> FishLanding \<Rightarrow> bool" where
  "skipped cat landing =
     (case cat of None \<Rightarrow> False | Some c \<Rightarrow> c \<noteq> [] \<and> category landing \<noteq> c)"

text \<open>The loop of \<^verbatim>\<open>total_fish_landings_per_year\<close>, with \<open>by_year\<close> as its state.\<close>

fun total_loop ::
  "string option \<Rightarrow> FishLanding list \<Rightarrow> (int, int) dict \<Rightarrow> py_error + (int, int) dict" where
  "total_loop cat [] by_year = Inr by_year"
| "total_loop cat (landing # rest) by_year =
     (if skipped cat landing then total_loop cat rest by_year
      else
        let by_year1 =
              (if \<not> dict_contains by_year (year landing)
               then dict_set by_year (year landing) 0 else by_year)
        in case dict_get by_year1 (year landing) of
             Inl e \<Rightarrow> Inl e
           | Inr t \<Rightarrow> total_loop cat rest (dict_set by_year1 (year landing) (t + pounds landing)))"

definition total_fish_landings_per_year ::
  "FishLanding list \<Rightarrow> string option \<Rightarrow> py_error + (int, int) dict" where
  "total_fish_landings_per_year fish_list cat = total_loop cat fish_list []"

text \<open>The loop of \<^verbatim>\<open>total_fish_category_landings_overall\<close>.\<close>

fun overall_loop :: "string option \<Rightarrow> FishLanding list \<Rightarrow> int \<Rightarrow> int" where
  "overall_loop cat [] total_pounds = total_pounds"
| "overall_loop cat (landing # rest) total_pounds =
     (if skipped cat landing then overall_loop cat rest total_pounds
      else overall_loop cat rest (total_pounds + pounds landing))"

definition total_fish_category_landings_overall :: "FishLanding list \<Rightarrow> string option \<Rightarrow> int" where
  "total_fish_category_landings_overall fish_list cat = overall_loop cat fish_list 0"




section \<open>Aggregation of water records\<close>

text \<open>\<^verbatim>\<open>average_oxygen_per_year\<close>: as above, with float totals that start at \<^verbatim>\<open>0.0\<close>.\<close>

fun average_oxygen_loop ::
  "WaterQualityRecord list \<Rightarrow> (int, pyfloat) dict \<Rightarrow> (int, int) dict \<Rightarrow>
   py_error + (int, pyfloat) dict \<times> (int, int) dict" where
  "average_oxygen_loop [] totals counts = Inr (totals, counts)"
| "average_oxygen_loop (record # rest) totals counts =
     (let (totals1, counts1) =
            (if \<not> dict_contains totals (wq_year record)
             then (dict_set totals (wq_year record) 0, dict_set counts (wq_year record) 0)
             else (totals, counts))
      in case dict_get totals1 (wq_year record) of
           Inl e \<Rightarrow> Inl e
         | Inr t \<Rightarrow>
            (case dict_get counts1 (wq_year record) of
               Inl e \<Rightarrow> Inl e
             | Inr c \<Rightarrow>
                average_oxygen_loop rest
                  (dict_set totals1 (wq_year record) (float_add t (dissolved_oxygen record)))
                  (dict_set counts1 (wq_year record) (c + 1))))"

fun oxygen_averages ::
  "int list \<Rightarrow> (int, pyfloat) dict \<Rightarrow> (int, int) dict \<Rightarrow> (int, pyfloat) dict \<Rightarrow>
   py_error + (int, pyfloat) dict" where
  "oxygen_averages [] totals counts result = Inr result"
| "oxygen_averages (y # ys) totals counts result =
     (case dict_get totals y of
        Inl e \<Rightarrow> Inl e
      | Inr t \<Rightarrow>
         (case dict_get counts y of
            Inl e \<Rightarrow> Inl e
          | Inr c \<Rightarrow>
             (case float_truediv t (float_of_int c) of
                Inl e \<Rightarrow> Inl e
              | Inr a \<Rightarrow> oxygen_averages ys totals counts (dict_set result y a))))"

definition average_oxygen_per_year :: "WaterQualityRecord list \<Rightarrow> py_error + (int, pyfloat) dict" where
  "average_oxygen_per_year water_list =
     (case average_oxygen_loop water_list [] [] of
        Inl e \<Rightarrow> Inl e
      | Inr (totals, counts) \<Rightarrow> oxygen_averages (dict_keys totals) totals counts [])"

section \<open>Comparisons between two years\<close>

text \<open>
  \<^verbatim>\<open>((b - a) / a * 100) if a > 0 else None\<close> on two \<^verbatim>\<open>int\<close>s: a true division, then a
  product with the \<^verbatim>\<open>int\<close> 100.
\<close>

definition percent_change_of :: "int \<Rightarrow> int \<Rightarrow> py_error + pyfloat option" where
  "percent_change_of a b =
     (if a > 0
      then case int_truediv (b - a) a of
             Inl e \<Rightarrow> Inl e
           | Inr q \<Rightarrow> Inr (Some (float_mul q (float_of_int 100)))
      else Inr None)"

text \<open>The values of \<^verbatim>\<open>comparison["species_changes"]\<close> and the dictionary returned.\<close>

record species_change =
  year1_pounds :: int
  year2_pounds :: int
  change :: int
  percent_change :: "pyfloat option"

record species_comparison =
  year1 :: int
  year2 :: int
  year1_total :: int
  year2_total :: int
  species_changes :: "(string, species_change) dict"

text \<open>The first loop of \<^verbatim>\<open>compare_species_between_years\<close>: an \<^verbatim>\<open>if\<close> and its \<^verbatim>\<open>elif\<close>.\<close>

fun species_loop ::
  "int \<Rightarrow> int \<Rightarrow> FishLanding list \<Rightarrow> (string, int) dict \<Rightarrow> (string, int) dict \<Rightarrow>
   (string, int) dict \<times> (string, int) dict" where
  "species_loop y1 y2 [] year1_data year2_data = (year1_data, year2_data)"
| "species_loop y1 y2 (landing # rest) year1_data year2_data =
     (if year landing = y1
      then species_loop y1 y2 rest (dict_set year1_data (species landing) (pounds landing)) year2_data
      else if year landing = y2
      then species_loop y1 y2 rest year1_data (dict_set year2_data (species landing) (pounds landing))
      else species_loop y1 y2 rest year1_data year2_data)"

text \<open>The second loop, over \<open>all_species\<close>.\<close>

fun changes_loop ::
  "string list \<Rightarrow> (string, int) dict \<Rightarrow> (string, int) dict \<Rightarrow> (string, species_change) dict \<Rightarrow>
   py_error + (string, species_change) dict" where
  "changes_loop [] year1_data year2_data changes = Inr changes"
| "changes_loop (sp # rest) year1_data year2_data changes =
     (let pounds1 = dict_get_default year1_data sp 0;
          pounds2 = dict_get_default year2_data sp 0
      in case percent_change_of pounds1 pounds2 of
           Inl e \<Rightarrow> Inl e
         | Inr pct_change \<Rightarrow>
            changes_loop rest year1_data year2_data
              (dict_set changes sp
                 \<lparr>year1_pounds = pounds1, year2_pounds = pounds2,
                  change = pounds2 - pounds1, percent_change = pct_change\<rparr>))"

text \<open>
  \<open>all_species\<close> is a Python \<^verbatim>\<open>set\<close>, whose iteration order is not specified; the
  model visits the species of year 1 and then the new ones of year 2. The order decides
  only the order of the entries of \<open>species_changes\<close>, which is read as a mapping.
\<close>

definition compare_species_between_years ::
  "FishLanding list \<Rightarrow> int \<Rightarrow> int \<Rightarrow> py_error + species_comparison" where
  "compare_species_between_years fish_list y1 y2 =
     (let (year1_data, year2_data) = species_loop y1 y2 fish_list [] [];
          all_species = remdups (dict_keys year1_data @ dict_keys year2_data)
      in case changes_loop all_species year1_data year2_data [] of
           Inl e \<Rightarrow> Inl e
         | Inr changes \<Rightarrow>
            Inr \<lparr>year1 = y1, year2 = y2,
                 year1_total = sum_list (dict_values year1_data),
                 year2_total = sum_list (dict_values year2_data),
                 species_changes = changes\<rparr>)"

text \<open>The dictionary returned by \<^verbatim>\<open>compare_total_landings_between_years\<close>.\<close>

record total_comparison =
  year1 :: int
  year2 :: int
  year1_total :: int
  year2_total :: int
  change :: int
  percent_change :: "pyfloat option"


section \<open>Pearson correlation\<close>

text \<open>\<^verbatim>\<open>[d[year] for year in common_years]\<close>\<close>

fun lookup_all :: "('k, 'v) dict \<Rightarrow> 'k list \<Rightarrow> py_error + 'v list" where
  "lookup_all d [] = Inr []"
| "lookup_all d (k # ks) =
     (case dict_get d k of
        Inl e \<Rightarrow> Inl e
      | Inr v \<Rightarrow> (case lookup_all d ks of Inl e \<Rightarrow> Inl e | Inr vs \<Rightarrow> Inr (v # vs)))"

text \<open>\<^verbatim>\<open>sorted(set(a.keys()) & set(b.keys()))\<close>\<close>

definition common_keys :: "(int, 'a) dict \<Rightarrow> (int, 'b) dict \<Rightarrow> int list" where
  "common_keys a b = sorted_list_of_set (set (dict_keys a) \<inter> set (dict_keys b))"

text \<open>The computation of \<^verbatim>\<open>calc_pearson\<close> on the paired values, from the means on.\<close>

definition pearson_of :: "int list \<Rightarrow> pyfloat list \<Rightarrow> nat \<Rightarrow> py_error + pyfloat \<times> nat" where
  "pearson_of fish_values oxygen_values n =
     (case int_truediv (sum_list fish_values) (int n) of
        Inl e \<Rightarrow> Inl e
      | Inr fish_mean \<Rightarrow>
     (case float_truediv (float_sum oxygen_values) (float_of_int (int n)) of
        Inl e \<Rightarrow> Inl e
      | Inr oxygen_mean \<Rightarrow>
     (let numerator =
            float_sum (map (\<lambda>i. float_mul (float_sub (float_of_int (fish_values ! i)) fish_mean)
                                         (float_sub (oxygen_values ! i) oxygen_mean)) [0..<n]);
          fish_variance =
            float_sum (map (\<lambda>x. float_square (float_sub (float_of_int x) fish_mean)) fish_values);
          oxygen_variance =
            float_sum (map (\<lambda>x. float_square (float_sub x oxygen_mean)) oxygen_values)
      in case math_sqrt (float_mul fish_variance oxygen_variance) of
           Inl e \<Rightarrow> Inl e
         | Inr denominator \<Rightarrow>
            if denominator = 0 then Inr (0, n)
            else (case float_truediv numerator denominator of
                    Inl e \<Rightarrow> Inl e
                  | Inr correlation \<Rightarrow> Inr (correlation, n)))))"

definition calc_pearson ::
  "FishLanding list \<Rightarrow> WaterQualityRecord list \<Rightarrow> string option \<Rightarrow> py_error + pyfloat \<times> nat" where
  "calc_pearson fish_list water_list cat =
     (case total_fish_landings_per_year fish_list cat of
        Inl e \<Rightarrow> Inl e
      | Inr fish_by_year \<Rightarrow>
     (case average_oxygen_per_year water_list of
        Inl e \<Rightarrow> Inl e
      | Inr oxygen_by_year \<Rightarrow>
     (let common_years = common_keys fish_by_year oxygen_by_year
      in if length common_years < 2 then Inr (0, length common_years)
         else (case lookup_all fish_by_year common_years of
                 Inl e \<Rightarrow> Inl e
               | Inr fish_values \<Rightarrow>
              (case lookup_all oxygen_by_year common_years of
                 Inl e \<Rightarrow> Inl e
               | Inr oxygen_values \<Rightarrow>
                  pearson_of fish_values oxygen_values (length common_years))))))"

section \<open>Summary\<close>

record summary_stats =
  total_fish_records :: nat
  total_water_records :: nat
  fish_years :: "int list"
  water_years :: "int list"
  common_years :: nat
  total_fish_category_pounds :: int
  pearson_correlation :: pyfloat


section \<open>Sample data and proof devices\<close>

text \<open>
  Three landings with totals 1, 2 and 4 pounds in three years, and one water sample of
  \<^verbatim>\<open>0.1\<close> mg/L in each of these years.
\<close>

definition doubling_fish_list :: "FishLanding list" where
  "doubling_fish_list =
    [\<lparr>category = ''Finfish'', year = 2000, species = ''Anchovy'', pounds = 1\<rparr>,
     \<lparr>category = ''Finfish'', year = 2001, species = ''Anchovy'', pounds = 2\<rparr>,
     \<lparr>category = ''Finfish'', year = 2002, species = ''Anchovy'', pounds = 4\<rparr>]"

definition constant_water_list :: "WaterQualityRecord list" where
  "constant_water_list =
    [\<lparr>station_name = ''S1'', date = ''2000-06-01 00:00:00'',
      dissolved_oxygen = round_double (1 / 10), water_temp = None, wq_year = 2000\<rparr>,
     \<lparr>station_name = ''S1'', date = ''2001-06-01 00:00:00'',
      dissolved_oxygen = round_double (1 / 10), water_temp = None, wq_year = 2001\<rparr>,
     \<lparr>station_name = ''S1'', date = ''2002-06-01 00:00:00'',
      dissolved_oxygen = round_double (1 / 10), water_temp = None, wq_year = 2002\<rparr>]"

text \<open>
  Proof device: the two statements \<^verbatim>\<open>if y not in d: d[y] = 0\<close> and \<^verbatim>\<open>d[y] += p\<close> taken
  together, as one total function on dictionaries.
\<close>

definition dict_add :: "(int, int) dict \<Rightarrow> int \<Rightarrow> int \<Rightarrow> (int, int) dict" where
  "dict_add d y p = dict_set d y (dict_get_default d y 0 + p)"

text \<open>
  Proof device: rounding the quotient of two integers to the nearest integer, ties to
  even, with integer arithmetic only; the evaluation of \<open>round_double\<close> goes through it.
\<close>

definition round_quotient :: "int \<Rightarrow> int \<Rightarrow> int" where
  "round_quotient a b =
     (let d = a div b; r = a mod b
      in if 2 * r < b then d else if b < 2 * r then d + 1 else if even d then d else d + 1)"

fun accumulate :: "string option \<Rightarrow> FishLanding list \<Rightarrow> (int, int) dict \<Rightarrow> (int, int) dict" where
  "accumulate cat [] d = d"
| "accumulate cat (landing # rest) d =
     accumulate cat rest (if skipped cat landing then d else dict_add d (year landing) (pounds landing))"

text \<open>The records that a filter lets through, and those of one year among them.\<close>

definition qualifying :: "string option \<Rightarrow> FishLanding list \<Rightarrow> FishLanding list" where
  "qualifying cat fish_list = filter (\<lambda>l. \<not> skipped cat l) fish_list"

definition in_year :: "int \<Rightarrow> FishLanding list \<Rightarrow> FishLanding list" where
  "in_year y fish_list = filter (\<lambda>l. year l = y) fish_list"

text \<open>The five landings of \<^verbatim>\<open>UnitTests.make_sample_analyzer\<close>.\<close>

definition sample_fish_list :: "FishLanding list" where
  "sample_fish_list =
    [\<lparr>category = ''Finfish'', year = 2000, species = ''Anchovy'', pounds = 100\<rparr>,
     \<lparr>category = ''Finfish'', year = 2000, species = ''Sardine'', pounds = 300\<rparr>,
     \<lparr>category = ''Crustaceans'', year = 2001, species = ''Crab'', pounds = 500\<rparr>,
     \<lparr>category = ''Finfish'', year = 2001, species = ''Anchovy'', pounds = 200\<rparr>,
     \<lparr>category = ''Finfish'', year = 2002, species = ''Tuna'', pounds = 400\<rparr>]"

text \<open>
  Proof devices for the averaging loops: the counts of the years of a list, the float
  totals of the water records, and a dictionary filled key by key with values \<open>g k\<close>.
\<close>

fun tally :: "int list \<Rightarrow> (int, int) dict \<Rightarrow> (int, int) dict" where
  "tally [] d = d"
| "tally (y # ys) d = tally ys (dict_add d y 1)"

fun oxygen_totals :: "WaterQualityRecord list \<Rightarrow> (int, pyfloat) dict \<Rightarrow> (int, pyfloat) dict" where
  "oxygen_totals [] d = d"
| "oxygen_totals (r # rest) d =
     oxygen_totals rest
       (dict_set d (wq_year r) (float_add (dict_get_default d (wq_year r) 0) (dissolved_oxygen r)))"

definition fill :: "('k \<Rightarrow> 'v) \<Rightarrow> 'k list \<Rightarrow> ('k, 'v) dict \<Rightarrow> ('k, 'v) dict" where
  "fill g ks d = foldl (\<lambda>r k. dict_set r k (g k)) d ks"

text \<open>
  Proof device for \<^verbatim>\<open>compare_species_between_years\<close>: the writes
  \<^verbatim>\<open>data[landing.species] = landing.pounds\<close> for a list of landings, in order.
\<close>

fun write_all :: "FishLanding list \<Rightarrow> (string, int) dict \<Rightarrow> (string, int) dict" where
  "write_all [] d = d"
| "write_all (l # ls) d = write_all ls (dict_set d (species l) (pounds l))"



section \<open>Evaluating the rounding\<close>

text \<open>
  Equations that compute the exponent and the rounding on the numerator and the
  denominator of a rational, without normalising intermediate fractions.
\<close>

declare isqrt.simps [simp del]

lemma pow2_code [code]:
  "pow2 k = (if 0 \<le> k then of_int (2 ^ nat k) else Fract 1 (2 ^ nat (- k)))"
  by (simp add: pow2_def power_int_def Fract_of_int_quotient of_int_power divide_simps)

lemma pow2_pos: "0 < pow2 k"
  by (simp add: pow2_def)

lemma round_quotient:
  assumes b: "0 < b"
  shows "round_half_even (of_int a / of_int b) = round_quotient a b"
proof -
  have fl: "\<lfloor>of_int a / of_int b :: rat\<rfloor> = a div b"
    by (simp add: floor_divide_of_int_eq)
  have r: "(of_int a / of_int b :: rat) - of_int (a div b) = of_int (a mod b) / of_int b"
    using b by (simp add: field_simps flip: of_int_mult of_int_add)
  have "(of_int (a mod b) * 2 < (of_int b :: rat)) = (2 * (a mod b) < b)"
    by (metis mult.commute of_int_less_iff of_int_mult of_int_numeral)
  then have lt: "(of_int (a mod b) / of_int b < (1 / 2 :: rat)) = (2 * (a mod b) < b)"
    using b by (simp add: field_simps)
  have "((of_int b :: rat) < of_int (a mod b) * 2) = (b < 2 * (a mod b))"
    by (metis mult.commute of_int_less_iff of_int_mult of_int_numeral)
  then have gt: "((1 / 2 :: rat) < of_int (a mod b) / of_int b) = (b < 2 * (a mod b))"
    using b by (simp add: field_simps)
  show ?thesis
    unfolding round_half_even_def round_quotient_def Let_def fl r lt gt ..
qed

lemma ilog2_code [code]:
  "ilog2 x =
     (let (p, q) = quotient_of x; k = bitlen \<bar>p\<bar> - bitlen q
      in if (if 0 \<le> k then 2 ^ nat k * q \<le> \<bar>p\<bar> else q \<le> \<bar>p\<bar> * 2 ^ nat (- k))
         then k else k - 1)"
proof -
  obtain p q where pq: "quotient_of x = (p, q)"
    by (cases "quotient_of x")
  then have q: "0 < q" and x: "x = of_int p / of_int q"
    using quotient_of_denom_pos [OF pq] quotient_of_div [OF pq] by auto
  have ax: "quotient_of \<bar>x\<bar> = (\<bar>p\<bar>, q)"
    using pq by (simp add: rat_abs_code)
  have ax': "\<bar>x\<bar> = of_int \<bar>p\<bar> / of_int q"
    using q unfolding x by simp
  have c: "(pow2 k \<le> \<bar>x\<bar>) =
           (if 0 \<le> k then 2 ^ nat k * q \<le> \<bar>p\<bar> else q \<le> \<bar>p\<bar> * 2 ^ nat (- k))" for k
  proof (cases "0 \<le> k")
    case True
    have "(pow2 k \<le> \<bar>x\<bar>) = ((of_int (2 ^ nat k * q) :: rat) \<le> of_int \<bar>p\<bar>)"
      unfolding ax' using q True by (simp add: pow2_def power_int_def field_simps)
    then show ?thesis
      using True unfolding of_int_le_iff by simp
  next
    case False
    have "(pow2 k \<le> \<bar>x\<bar>) = ((of_int q :: rat) \<le> of_int (\<bar>p\<bar> * 2 ^ nat (- k)))"
      unfolding ax' using q False by (simp add: pow2_def power_int_def field_simps)
    then show ?thesis
      using False unfolding of_int_le_iff by simp
  qed
  show ?thesis
    unfolding ilog2_def ax pq prod.case Let_def c ..
qed

lemma round_double_code [code]:
  "round_double x =
     (if x = 0 then 0
      else let e = max (ilog2 x - 52) (- 1074); (p, q) = quotient_of x
           in if 0 \<le> e then of_int (round_quotient p (q * 2 ^ nat e) * 2 ^ nat e)
              else Fract (round_quotient (p * 2 ^ nat (- e)) q) (2 ^ nat (- e)))"
proof (cases "x = 0")
  case True
  then show ?thesis
    by (simp add: round_double_def)
next
  case nz: False
  obtain p q where pq: "quotient_of x = (p, q)"
    by (cases "quotient_of x")
  then have q: "0 < q" and x: "x = of_int p / of_int q"
    using quotient_of_denom_pos [OF pq] quotient_of_div [OF pq] by auto
  define e where "e = max (ilog2 x - 52) (- 1074)"
  show ?thesis
  proof (cases "0 \<le> e")
    case True
    have "x / pow2 e = of_int p / of_int (q * 2 ^ nat e)"
      unfolding x using True by (simp add: pow2_def power_int_def)
    moreover have "0 < q * 2 ^ nat e"
      using q by simp
    ultimately have "round_half_even (x / pow2 e) = round_quotient p (q * 2 ^ nat e)"
      using round_quotient by metis
    moreover have "pow2 e = of_int (2 ^ nat e)"
      using True by (simp add: pow2_def power_int_def)
    ultimately show ?thesis
      using nz True unfolding round_double_def Let_def pq prod.case e_def [symmetric] by simp
  next
    case False
    have "x / pow2 e = of_int (p * 2 ^ nat (- e)) / of_int q"
      unfolding x using False by (simp add: pow2_def power_int_def field_simps)
    then have "round_half_even (x / pow2 e) = round_quotient (p * 2 ^ nat (- e)) q"
      using round_quotient [OF q] by metis
    moreover have "of_int m * pow2 e = Fract m (2 ^ nat (- e))" for m
      using False by (simp add: pow2_def power_int_def Fract_of_int_quotient field_simps)
    ultimately show ?thesis
      using nz False unfolding round_double_def Let_def pq prod.case e_def [symmetric] by simp
  qed
qed

section \<open>Facts about dictionaries\<close>

lemma map_of_dict_set: "map_of (dict_set d k v) = (map_of d)(k \<mapsto> v)"
  by (induction d) auto

lemma keys_dict_set: "fst ` set (dict_set d k v) = insert k (fst ` set d)"
proof -
  have "fst ` set (dict_set d k v) = dom (map_of (dict_set d k v))"
    by (simp add: dom_map_of_conv_image_fst)
  also have "\<dots> = insert k (dom (map_of d))"
    by (simp add: map_of_dict_set)
  finally show ?thesis
    by (simp add: dom_map_of_conv_image_fst)
qed

lemma distinct_dict_set: "distinct (map fst d) \<Longrightarrow> distinct (map fst (dict_set d k v))"
proof (induction d)
  case Nil
  then show ?case by simp
next
  case (Cons a d)
  obtain k' v' where a: "a = (k', v')" by (cases a)
  have "k' \<noteq> k \<Longrightarrow> k' \<notin> fst ` set (dict_set d k v)"
    using Cons.prems a unfolding keys_dict_set by simp
  with Cons a show ?case by auto
qed

lemma sum_dict_set:
  "sum_list (map snd (dict_set d k v)) + dict_get_default d k 0 = sum_list (map snd d) + (v::int)"
  if "distinct (map fst d)"
  using that
proof (induction d)
  case Nil
  then show ?case by (simp add: dict_get_default_def)
next
  case (Cons a d)
  obtain k' v' where a: "a = (k', v')" by (cases a)
  show ?case
  proof (cases "k' = k")
    case True
    then show ?thesis using a by (simp add: dict_get_default_def)
  next
    case False
    with Cons a show ?thesis by (simp add: dict_get_default_def)
  qed
qed

lemma dict_set_twice: "dict_set (dict_set d k v) k w = dict_set d k w"
  by (induction d) auto

lemma dict_get_default_set: "dict_get_default (dict_set d k v) k' dflt = (if k' = k then v else dict_get_default d k' dflt)"
  by (simp add: dict_get_default_def map_of_dict_set)

section \<open>Facts about the aggregation loops\<close>

lemma total_loop_accumulate: "total_loop cat fl d = Inr (accumulate cat fl d)"
proof (induction fl arbitrary: d)
  case Nil
  then show ?case by simp
next
  case (Cons l fl)
  show ?case
  proof (cases "skipped cat l")
    case True
    then show ?thesis by (simp add: Cons.IH)
  next
    case False
    show ?thesis
    proof (cases "map_of d (year l)")
      case None
      with False show ?thesis
        by (simp add: Cons.IH dict_contains_def dict_get_def map_of_dict_set dict_add_def
            dict_get_default_def dict_set_twice)
    next
      case (Some t)
      with False show ?thesis
        by (simp add: Cons.IH dict_contains_def dict_get_def dict_add_def dict_get_default_def)
    qed
  qed
qed

lemma keys_dict_add: "fst ` set (dict_add d y p) = insert y (fst ` set d)"
  unfolding dict_add_def by (rule keys_dict_set)

lemma distinct_dict_add: "distinct (map fst d) \<Longrightarrow> distinct (map fst (dict_add d y p))"
  unfolding dict_add_def by (rule distinct_dict_set)

lemma sum_dict_add: "distinct (map fst d) \<Longrightarrow> sum_list (map snd (dict_add d y p)) = sum_list (map snd d) + p"
  using sum_dict_set [of d y "dict_get_default d y 0 + p"] by (simp add: dict_add_def)

lemma get_dict_add:
  "dict_get_default (dict_add d y p) y' 0 = dict_get_default d y' 0 + (if y' = y then p else 0)"
  by (simp add: dict_add_def dict_get_default_set)

lemma distinct_accumulate: "distinct (map fst d) \<Longrightarrow> distinct (map fst (accumulate cat fl d))"
  by (induction fl arbitrary: d) (simp_all add: distinct_dict_add)

lemma keys_accumulate:
  "fst ` set (accumulate cat fl d) = fst ` set d \<union> year ` set (qualifying cat fl)"
proof (induction fl arbitrary: d)
  case Nil
  then show ?case by (simp add: qualifying_def)
next
  case (Cons l fl)
  show ?case
    unfolding accumulate.simps Cons.IH
    by (auto simp: qualifying_def keys_dict_add)
qed

lemma overall_loop_shift: "overall_loop cat fl t = t + overall_loop cat fl 0"
proof (induction fl arbitrary: t)
  case Nil
  then show ?case by simp
next
  case (Cons l fl)
  show ?case
    using Cons.IH [of t] Cons.IH [of "t + pounds l"] Cons.IH [of "pounds l"] by simp
qed

lemma overall_loop_sum: "overall_loop cat fl t = t + sum_list (map pounds (qualifying cat fl))"
  by (induction fl arbitrary: t) (simp_all add: qualifying_def)

lemma sum_accumulate:
  "distinct (map fst d) \<Longrightarrow>
   sum_list (map snd (accumulate cat fl d)) = sum_list (map snd d) + overall_loop cat fl 0"
proof (induction fl arbitrary: d)
  case Nil
  then show ?case by simp
next
  case (Cons l fl)
  show ?case
  proof (cases "skipped cat l")
    case True
    with Cons show ?thesis by simp
  next
    case False
    have "sum_list (map snd (accumulate cat (l # fl) d)) =
          sum_list (map snd (dict_add d (year l) (pounds l))) + overall_loop cat fl 0"
      using False Cons.IH [OF distinct_dict_add [OF Cons.prems]] by simp
    also have "\<dots> = sum_list (map snd d) + pounds l + overall_loop cat fl 0"
      by (simp add: sum_dict_add [OF Cons.prems])
    also have "\<dots> = sum_list (map snd d) + overall_loop cat (l # fl) 0"
      using False overall_loop_shift [of cat fl "pounds l"] by simp
    finally show ?thesis .
  qed
qed

lemma get_accumulate:
  "dict_get_default (accumulate cat fl d) y 0 =
   dict_get_default d y 0 + sum_list (map pounds (in_year y (qualifying cat fl)))"
  by (induction fl arbitrary: d) (simp_all add: qualifying_def in_year_def get_dict_add)

lemma map_of_keys: "map_of d k = None \<longleftrightarrow> k \<notin> fst ` set d"
  by (simp add: map_of_eq_None_iff)

lemma map_of_accumulate_empty:
  "map_of (accumulate cat fl []) y =
     (if in_year y (qualifying cat fl) = [] then None
      else Some (sum_list (map pounds (in_year y (qualifying cat fl)))))"
proof (cases "in_year y (qualifying cat fl) = []")
  case True
  then have "y \<notin> year ` set (qualifying cat fl)"
    by (auto simp: in_year_def filter_empty_conv)
  then have "map_of (accumulate cat fl []) y = None"
    unfolding map_of_keys keys_accumulate by simp
  with True show ?thesis by simp
next
  case False
  then have "y \<in> year ` set (qualifying cat fl)"
    by (auto simp: in_year_def filter_empty_conv)
  then have "map_of (accumulate cat fl []) y \<noteq> None"
    unfolding map_of_keys keys_accumulate by simp
  then obtain t where t: "map_of (accumulate cat fl []) y = Some t"
    by auto
  with get_accumulate [of cat fl "[]" y]
  have "t = sum_list (map pounds (in_year y (qualifying cat fl)))"
    by (simp add: dict_get_default_def)
  with t False show ?thesis by simp
qed

section \<open>Totals per year\<close>

text \<open>
  C4. \<^verbatim>\<open>total_fish_landings_per_year\<close> never raises; the value it stores for a year is
  the sum of the pounds of the records of that year whose category is the filter's (all
  records of that year when the filter is \<^verbatim>\<open>None\<close> or the empty string), and a year
  has an entry exactly when it has such a record. On the five sample landings the result
  is \<^verbatim>\<open>{2000: 400, 2001: 700, 2002: 400}\<close> without a filter and
  \<^verbatim>\<open>{2000: 400, 2001: 200, 2002: 400}\<close> with the filter \<^verbatim>\<open>"Finfish"\<close>.
\<close>

theorem total_fish_landings_per_year_sums:
  "(\<exists>by_year.
      total_fish_landings_per_year fish_list cat = Inr by_year \<and>
      distinct (dict_keys by_year) \<and>
      (\<forall>y. map_of by_year y =
         (let kept = filter (\<lambda>l. year l = y \<and>
                      (case cat of None \<Rightarrow> True | Some c \<Rightarrow> c = [] \<or> category l = c)) fish_list
          in if kept = [] then None else Some (sum_list (map pounds kept))))) \<and>
   total_fish_landings_per_year sample_fish_list None =
      Inr [(2000, 400), (2001, 700), (2002, 400)] \<and>
   total_fish_landings_per_year sample_fish_list (Some ''Finfish'') =
      Inr [(2000, 400), (2001, 200), (2002, 400)]"
proof (intro conjI)
  have kept: "filter (\<lambda>l. year l = y \<and>
                (case cat of None \<Rightarrow> True | Some c \<Rightarrow> c = [] \<or> category l = c)) fish_list
              = in_year y (qualifying cat fish_list)" for y
    unfolding in_year_def qualifying_def filter_filter
    by (rule filter_cong) (auto simp: skipped_def split: option.splits)
  show "\<exists>by_year.
     total_fish_landings_per_year fish_list cat = Inr by_year \<and>
     distinct (dict_keys by_year) \<and>
     (\<forall>y. map_of by_year y =
        (let kept = filter (\<lambda>l. year l = y \<and>
                     (case cat of None \<Rightarrow> True | Some c \<Rightarrow> c = [] \<or> category l = c)) fish_list
         in if kept = [] then None else Some (sum_list (map pounds kept))))"
    unfolding kept total_fish_landings_per_year_def total_loop_accumulate dict_keys_def
    by (simp add: distinct_accumulate map_of_accumulate_empty Let_def)
  show "total_fish_landings_per_year sample_fish_list None =
         Inr [(2000, 400), (2001, 700), (2002, 400)]"
    by (simp add: total_fish_landings_per_year_def sample_fish_list_def skipped_def
        dict_contains_def dict_get_def)
  show "total_fish_landings_per_year sample_fish_list (Some ''Finfish'') =
         Inr [(2000, 400), (2001, 200), (2002, 400)]"
    by (simp add: total_fish_landings_per_year_def sample_fish_list_def skipped_def
        dict_contains_def dict_get_def)
qed

section \<open>Facts about rounding\<close>


lemma round_half_even_pos: "1 \<le> x \<Longrightarrow> 0 < round_half_even x"
proof -
  assume "1 \<le> x"
  then have "1 \<le> \<lfloor>x\<rfloor>" by simp
  then show ?thesis by (simp add: round_half_even_def Let_def)
qed


lemma pow2_mono: "a \<le> b \<Longrightarrow> pow2 a \<le> pow2 b"
  by (simp add: pow2_def power_int_increasing)

lemma ilog2_lower:
  assumes "x \<noteq> 0"
  shows "pow2 (ilog2 x) \<le> \<bar>x\<bar>"
proof -
  obtain p q where pq: "quotient_of \<bar>x\<bar> = (p, q)"
    by (cases "quotient_of \<bar>x\<bar>")
  then have q: "0 < q" and x: "\<bar>x\<bar> = of_int p / of_int q"
    using quotient_of_denom_pos [OF pq] quotient_of_div [OF pq] by auto
  have p: "0 < p"
  proof (rule ccontr)
    assume "\<not> 0 < p"
    then have "of_int p / of_int q \<le> (0::rat)"
      using q by (simp add: divide_le_0_iff)
    with x assms show False by simp
  qed
  define k where "k = bitlen p - bitlen q"
  show ?thesis
  proof (cases "pow2 k \<le> \<bar>x\<bar>")
    case True
    then show ?thesis
      by (simp add: ilog2_def pq k_def Let_def)
  next
    case False
    then have il: "ilog2 x = k - 1"
      by (simp add: ilog2_def pq k_def Let_def)
    have bp: "2 ^ nat (bitlen p - 1) \<le> p" and bq: "q < 2 ^ nat (bitlen q)"
      using bitlen_bounds [OF p] bitlen_bounds [OF q] by auto
    have bp1: "1 \<le> bitlen p"
      using p by (auto simp: bitlen_alt_def)
    have a: "pow2 (bitlen p - 1) \<le> of_int p"
    proof -
      have "pow2 (bitlen p - 1) = of_int (2 ^ nat (bitlen p - 1))"
        using bp1 by (simp add: pow2_def power_int_def)
      also have "\<dots> \<le> of_int p"
        using bp unfolding of_int_le_iff .
      finally show ?thesis .
    qed
    have b: "of_int q \<le> pow2 (bitlen q)"
    proof -
      have "(of_int q :: rat) \<le> of_int (2 ^ nat (bitlen q))"
        using bq unfolding of_int_le_iff by simp
      also have "\<dots> = pow2 (bitlen q)"
        using bitlen_nonneg [of q] by (simp add: pow2_def power_int_def)
      finally show ?thesis .
    qed
    have "pow2 (k - 1) = pow2 (bitlen p - 1) / pow2 (bitlen q)"
      unfolding k_def pow2_def by (simp add: power_int_diff)
    also have "\<dots> \<le> of_int p / of_int q"
      using a b q pow2_pos [of "bitlen p - 1"] by (intro frac_le) (auto simp: less_imp_le)
    finally show ?thesis
      unfolding il x .
  qed
qed

lemma round_double_pos:
  assumes "1 \<le> x"
  shows "0 < round_double x"
proof -
  define u where "u = pow2 (max (ilog2 x - 52) (- 1074))"
  have x0: "x \<noteq> 0" and ax: "\<bar>x\<bar> = x"
    using assms by auto
  have "u \<le> x"
  proof (cases "ilog2 x - 52 \<le> - 1074")
    case True
    then have "u = pow2 (- 1074)"
      by (simp add: u_def max_def)
    also have "\<dots> \<le> pow2 0"
      by (rule pow2_mono) simp
    also have "\<dots> = 1"
      by (simp add: pow2_def)
    finally show ?thesis
      using assms by simp
  next
    case False
    then have "u = pow2 (ilog2 x - 52)"
      by (simp add: u_def max_def)
    also have "\<dots> \<le> pow2 (ilog2 x)"
      by (rule pow2_mono) simp
    also have "\<dots> \<le> x"
      using ilog2_lower [OF x0] ax by simp
    finally show ?thesis .
  qed
  then have "1 \<le> x / u"
    using pow2_pos [of "max (ilog2 x - 52) (- 1074)"] by (simp add: u_def)
  then have "0 < round_half_even (x / u)"
    by (rule round_half_even_pos)
  then show ?thesis
    using x0 pow2_pos [of "max (ilog2 x - 52) (- 1074)"]
    by (simp add: round_double_def Let_def u_def)
qed

lemma float_of_int_pos: "1 \<le> c \<Longrightarrow> 0 < float_of_int c"
  unfolding float_of_int_def by (rule round_double_pos) simp




section \<open>Facts about the averaging loops\<close>

lemma skipped_None [simp]: "skipped None l = False"
  by (simp add: skipped_def)

lemma qualifying_None [simp]: "qualifying None fl = fl"
  by (simp add: qualifying_def)

lemma same_keys_lookup:
  "fst ` set a = fst ` set b \<Longrightarrow> (map_of a k = None) = (map_of b k = None)"
  by (simp add: map_of_keys)



lemma average_oxygen_loop_step:
  assumes "fst ` set totals = fst ` set counts"
  shows "average_oxygen_loop (r # wl) totals counts =
         average_oxygen_loop wl
           (dict_set totals (wq_year r) (float_add (dict_get_default totals (wq_year r) 0) (dissolved_oxygen r)))
           (dict_add counts (wq_year r) 1)"
proof (cases "map_of totals (wq_year r)")
  case None
  then have "map_of counts (wq_year r) = None"
    using same_keys_lookup [OF assms] by simp
  with None show ?thesis
    by (simp add: dict_contains_def dict_get_def map_of_dict_set dict_add_def
        dict_get_default_def dict_set_twice)
next
  case (Some t)
  then obtain c where "map_of counts (wq_year r) = Some c"
    using same_keys_lookup [OF assms, of "wq_year r"] by auto
  with Some show ?thesis
    by (simp add: dict_contains_def dict_get_def dict_add_def dict_get_default_def)
qed

lemma average_oxygen_loop_pure:
  "fst ` set totals = fst ` set counts \<Longrightarrow>
   average_oxygen_loop wl totals counts = Inr (oxygen_totals wl totals, tally (map wq_year wl) counts)"
proof (induction wl arbitrary: totals counts)
  case Nil
  then show ?case by simp
next
  case (Cons r wl)
  let ?t = "dict_set totals (wq_year r) (float_add (dict_get_default totals (wq_year r) 0) (dissolved_oxygen r))"
  have keys: "fst ` set ?t = fst ` set (dict_add counts (wq_year r) 1)"
    by (simp add: keys_dict_add keys_dict_set Cons.prems)
  show ?case
    unfolding average_oxygen_loop_step [OF Cons.prems] Cons.IH [OF keys] by simp
qed

lemma keys_tally: "fst ` set (tally ys d) = fst ` set d \<union> set ys"
  by (induction ys arbitrary: d) (auto simp: keys_dict_add)

lemma keys_oxygen_totals: "fst ` set (oxygen_totals wl d) = fst ` set d \<union> wq_year ` set wl"
  by (induction wl arbitrary: d) (auto simp: keys_dict_set)

lemma get_tally:
  "dict_get_default (tally ys d) y 0 = dict_get_default d y 0 + int (length (filter (\<lambda>z. z = y) ys))"
  by (induction ys arbitrary: d) (simp_all add: get_dict_add)

lemma map_of_fill: "map_of (fill g ks d) k = (if k \<in> set ks then Some (g k) else map_of d k)"
  unfolding fill_def by (induction ks arbitrary: d) (simp_all add: map_of_dict_set)

lemma keys_fill: "fst ` set (fill g ks d) = fst ` set d \<union> set ks"
  unfolding fill_def by (induction ks arbitrary: d) (auto simp: keys_dict_set)

lemma fill_Cons: "fill g (k # ks) d = fill g ks (dict_set d k (g k))"
  by (simp add: fill_def)

lemma dict_get_present: "k \<in> fst ` set d \<Longrightarrow> dict_get d k = Inr (dict_get_default d k dflt)"
  by (cases "map_of d k") (simp_all add: dict_get_def dict_get_default_def map_of_keys)


lemma oxygen_averages_pure:
  assumes "set ys \<subseteq> fst ` set totals" "set ys \<subseteq> fst ` set counts"
    and "\<And>y. y \<in> set ys \<Longrightarrow> 1 \<le> dict_get_default counts y 0"
  shows "oxygen_averages ys totals counts result =
         Inr (fill (\<lambda>y. round_double (dict_get_default totals y 0 /
                                       float_of_int (dict_get_default counts y 0))) ys result)"
  using assms
proof (induction ys arbitrary: result)
  case Nil
  then show ?case by (simp add: fill_def)
next
  case (Cons y ys)
  have t: "dict_get totals y = Inr (dict_get_default totals y 0)"
    and c: "dict_get counts y = Inr (dict_get_default counts y 0)"
    using Cons.prems(1,2) by (auto intro: dict_get_present)
  have nz: "float_of_int (dict_get_default counts y 0) \<noteq> 0"
    using float_of_int_pos [OF Cons.prems(3) [of y]] by simp
  have rest: "set ys \<subseteq> fst ` set totals" "set ys \<subseteq> fst ` set counts"
    "\<And>z. z \<in> set ys \<Longrightarrow> 1 \<le> dict_get_default counts z 0"
    using Cons.prems by auto
  show ?case
    by (simp add: t c nz float_truediv_def fill_Cons Cons.IH [OF rest])
qed

lemma tally_positive:
  assumes "y \<in> set ys"
  shows "1 \<le> dict_get_default (tally ys []) y 0"
proof -
  have "filter (\<lambda>z. z = y) ys \<noteq> []"
    using assms by (simp add: filter_empty_conv)
  then have "0 < length (filter (\<lambda>z. z = y) ys)"
    by simp
  then have "1 \<le> int (length (filter (\<lambda>z. z = y) ys))"
    by linarith
  then show ?thesis
    unfolding get_tally by (simp add: dict_get_default_def)
qed



lemma average_oxygen_per_year_pure:
  "average_oxygen_per_year wl =
     Inr (fill (\<lambda>y. round_double (dict_get_default (oxygen_totals wl []) y 0 /
                                   float_of_int (dict_get_default (tally (map wq_year wl) []) y 0)))
            (map fst (oxygen_totals wl [])) [])"
proof -
  let ?totals = "oxygen_totals wl []" and ?counts = "tally (map wq_year wl) []"
  have loop: "average_oxygen_loop wl [] [] = Inr (?totals, ?counts)"
    by (rule average_oxygen_loop_pure) simp
  have keys: "fst ` set ?totals = wq_year ` set wl" "fst ` set ?counts = wq_year ` set wl"
    by (simp_all add: keys_oxygen_totals keys_tally)
  have pos: "y \<in> set (map fst ?totals) \<Longrightarrow> 1 \<le> dict_get_default ?counts y 0" for y
    using tally_positive [of y "map wq_year wl"] keys by auto
  have "oxygen_averages (map fst ?totals) ?totals ?counts [] =
        Inr (fill (\<lambda>y. round_double (dict_get_default ?totals y 0 /
                                      float_of_int (dict_get_default ?counts y 0))) (map fst ?totals) [])"
    by (rule oxygen_averages_pure) (use keys pos in auto)
  then show ?thesis
    unfolding average_oxygen_per_year_def loop dict_keys_def by simp
qed

lemma keys_average_oxygen:
  "\<exists>oxy. average_oxygen_per_year wl = Inr oxy \<and> fst ` set oxy = wq_year ` set wl"
  unfolding average_oxygen_per_year_pure by (simp add: keys_fill keys_oxygen_totals)


section \<open>Totals, averages and their keys\<close>

text \<open>
  C5. For every list of landings and every category filter, the values of
  \<^verbatim>\<open>total_fish_landings_per_year\<close>, summed over all its years, give
  \<^verbatim>\<open>total_fish_category_landings_overall\<close> with the same filter.
\<close>

theorem yearly_totals_sum_to_overall_total:
  "\<exists>by_year.
     total_fish_landings_per_year fish_list cat = Inr by_year \<and>
     sum_list (dict_values by_year) = total_fish_category_landings_overall fish_list cat"
  unfolding total_fish_landings_per_year_def total_loop_accumulate dict_values_def
    total_fish_category_landings_overall_def
  by (simp add: sum_accumulate)



lemma length_common_keys:
  "length (common_keys a b) = card (set (dict_keys a) \<inter> set (dict_keys b))"
  by (simp add: common_keys_def)

lemma set_common_keys: "set (common_keys a b) = set (dict_keys a) \<inter> set (dict_keys b)"
  by (simp add: common_keys_def)

section \<open>Correlation and summary\<close>

text \<open>
  C3. Whatever the two lists, empty ones included: when the totals per year and the
  oxygen averages per year have fewer than two years in common, \<^verbatim>\<open>calc_pearson\<close>
  raises nothing and returns the coefficient \<^verbatim>\<open>0.0\<close> with the number of common years.
\<close>

theorem calc_pearson_few_common_years:
  "\<exists>fish_by_year oxygen_by_year.
     total_fish_landings_per_year fish_list cat = Inr fish_by_year \<and>
     average_oxygen_per_year water_list = Inr oxygen_by_year \<and>
     (card (set (dict_keys fish_by_year) \<inter> set (dict_keys oxygen_by_year)) < 2 \<longrightarrow>
      calc_pearson fish_list water_list cat =
        Inr (0, card (set (dict_keys fish_by_year) \<inter> set (dict_keys oxygen_by_year))))"
proof -
  obtain oxy where oxy: "average_oxygen_per_year water_list = Inr oxy"
    using keys_average_oxygen by blast
  have fish: "total_fish_landings_per_year fish_list cat = Inr (accumulate cat fish_list [])"
    by (simp add: total_fish_landings_per_year_def total_loop_accumulate)
  show ?thesis
    unfolding calc_pearson_def fish oxy
    by (simp add: Let_def length_common_keys)
qed

theorem calc_pearson_few_common_years_witness:
  "calc_pearson [] [] None = Inr (0, 0) \<and>
   calc_pearson
     [\<lparr>category = ''Finfish'', year = 2000, species = ''Anchovy'', pounds = 100\<rparr>]
     [\<lparr>station_name = ''S1'', date = ''2000-06-01 00:00:00'', dissolved_oxygen = 5,
       water_temp = None, wq_year = 2000\<rparr>,
      \<lparr>station_name = ''S1'', date = ''2001-06-01 00:00:00'', dissolved_oxygen = 6,
       water_temp = None, wq_year = 2001\<rparr>]
     None = Inr (0, 1)"
proof
  have f0: "total_fish_landings_per_year [] None = Inr []"
    by (simp add: total_fish_landings_per_year_def)
  have o0: "average_oxygen_per_year [] = Inr []"
    by (simp add: average_oxygen_per_year_def dict_keys_def)
  show "calc_pearson [] [] None = Inr (0, 0)"
    using calc_pearson_few_common_years [of "[]" None "[]"]
    unfolding f0 o0 by (simp add: dict_keys_def)
  let ?fl = "[\<lparr>category = ''Finfish'', year = 2000, species = ''Anchovy'', pounds = 100\<rparr>]"
  let ?wl = "[\<lparr>station_name = ''S1'', date = ''2000-06-01 00:00:00'', dissolved_oxygen = 5,
       water_temp = None, wq_year = 2000\<rparr>,
      \<lparr>station_name = ''S1'', date = ''2001-06-01 00:00:00'', dissolved_oxygen = 6,
       water_temp = None, wq_year = 2001\<rparr>]"
  have f1: "total_fish_landings_per_year ?fl None = Inr [(2000, 100)]"
    by (simp add: total_fish_landings_per_year_def skipped_def dict_contains_def dict_get_def)
  have o1: "average_oxygen_per_year ?wl = Inr [(2000, 5), (2001, 6)]"
    by code_simp
  show "calc_pearson ?fl ?wl None = Inr (0, 1)"
    using calc_pearson_few_common_years [of ?fl None ?wl]
    unfolding f1 o1 by (simp add: dict_keys_def)
qed

lemma lookup_all_returns:
  "set ks \<subseteq> fst ` set d \<Longrightarrow> \<exists>vs. lookup_all d ks = Inr vs"
proof (induction ks)
  case Nil
  then show ?case by simp
next
  case (Cons k ks)
  then obtain vs where "lookup_all d ks = Inr vs"
    by auto
  moreover have "dict_get d k = Inr (dict_get_default d k undefined)"
    using Cons.prems by (intro dict_get_present) simp
  ultimately show ?case
    by simp
qed





section \<open>Comparison of totals\<close>


section \<open>Comparison of species\<close>

lemma species_loop_year1:
  "map_of (fst (species_loop y1 y2 fl d1 d2)) s =
     (let rs = filter (\<lambda>l. year l = y1 \<and> species l = s) fl
      in if rs = [] then map_of d1 s else Some (pounds (last rs)))"
proof (induction fl arbitrary: d1 d2)
  case Nil
  then show ?case by simp
next
  case (Cons l fl)
  show ?case
    by (simp add: Cons.IH Let_def map_of_dict_set)
qed

lemma species_loop_year2:
  "map_of (snd (species_loop y1 y2 fl d1 d2)) s =
     (let rs = filter (\<lambda>l. year l \<noteq> y1 \<and> year l = y2 \<and> species l = s) fl
      in if rs = [] then map_of d2 s else Some (pounds (last rs)))"
proof (induction fl arbitrary: d1 d2)
  case Nil
  then show ?case by simp
next
  case (Cons l fl)
  show ?case
    by (simp add: Cons.IH Let_def map_of_dict_set)
qed

lemma species_loop_same_year: "snd (species_loop y y fl d1 d2) = d2"
  by (induction fl arbitrary: d1) simp_all

lemma percent_change_of_returns:
  "percent_change_of a b =
     Inr (if 0 < a then Some (float_mul (round_double (of_int (b - a) / of_int a)) (float_of_int 100))
          else None)"
  by (simp add: percent_change_of_def int_truediv_def)

lemma changes_loop_pure:
  "changes_loop sps d1 d2 changes =
     Inr (fill (\<lambda>sp. \<lparr>year1_pounds = dict_get_default d1 sp 0,
                      year2_pounds = dict_get_default d2 sp 0,
                      species_change.change = dict_get_default d2 sp 0 - dict_get_default d1 sp 0,
                      species_change.percent_change =
                        (if 0 < dict_get_default d1 sp 0
                         then Some (float_mul
                                (round_double (of_int (dict_get_default d2 sp 0 - dict_get_default d1 sp 0) /
                                               of_int (dict_get_default d1 sp 0)))
                                (float_of_int 100))
                         else None)\<rparr>) sps changes)"
proof (induction sps arbitrary: changes)
  case Nil
  then show ?case by (simp add: fill_def)
next
  case (Cons sp sps)
  show ?case
    by (simp add: percent_change_of_returns Let_def fill_Cons Cons.IH)
qed

lemma species_loop_write_all:
  "species_loop y1 y2 fl d1 d2 =
     (write_all (filter (\<lambda>l. year l = y1) fl) d1,
      write_all (filter (\<lambda>l. year l \<noteq> y1 \<and> year l = y2) fl) d2)"
  by (induction fl arbitrary: d1 d2) simp_all


lemma distinct_write_all: "distinct (map fst d) \<Longrightarrow> distinct (map fst (write_all rs d))"
  by (induction rs arbitrary: d) (simp_all add: distinct_dict_set)









lemma compare_species_pure:
  "compare_species_between_years fl y1 y2 =
     (let year1_data = write_all (filter (\<lambda>l. year l = y1) fl) [];
          year2_data = write_all (filter (\<lambda>l. year l \<noteq> y1 \<and> year l = y2) fl) []
      in Inr \<lparr>species_comparison.year1 = y1, year2 = y2,
              year1_total = sum_list (map snd year1_data),
              year2_total = sum_list (map snd year2_data),
              species_changes =
                fill (\<lambda>sp. \<lparr>year1_pounds = dict_get_default year1_data sp 0,
                      year2_pounds = dict_get_default year2_data sp 0,
                      species_change.change = dict_get_default year2_data sp 0 - dict_get_default year1_data sp 0,
                      species_change.percent_change =
                        (if 0 < dict_get_default year1_data sp 0
                         then Some (float_mul
                                (round_double (of_int (dict_get_default year2_data sp 0 - dict_get_default year1_data sp 0) /
                                               of_int (dict_get_default year1_data sp 0)))
                                (float_of_int 100))
                         else None)\<rparr>)
                  (remdups (map fst year1_data @ map fst year2_data)) []\<rparr>)"
  unfolding compare_species_between_years_def species_loop_write_all
  by (simp add: Let_def changes_loop_pure dict_keys_def dict_values_def)







lemma total_loss_percent: "float_mul (round_double (- 1)) (float_of_int 100) = - 100"
  by code_simp

text \<open>
  C1. What \<^verbatim>\<open>compare_species_between_years(y, y)\<close> returns: every record of year \<open>y\<close>
  is taken by the \<^verbatim>\<open>if\<close> branch, none by the \<^verbatim>\<open>elif\<close>, so the total of year 2 and
  the year-2 pounds of every species are 0, the change of a species is minus its pounds,
  and its percentage is \<^verbatim>\<open>-100.0\<close> whenever its pounds are positive.
\<close>

theorem compare_species_same_year:
  "\<exists>cmp.
     compare_species_between_years fish_list y y = Inr cmp \<and>
     species_comparison.year2_total cmp = 0 \<and>
     (\<forall>s c. map_of (species_changes cmp) s = Some c \<longrightarrow>
        year2_pounds c = 0 \<and>
        species_change.change c = - year1_pounds c \<and>
        species_change.percent_change c = (if 0 < year1_pounds c then Some (- 100) else None))"
proof -
  have none: "filter (\<lambda>l. year l \<noteq> y \<and> year l = y) fish_list = []"
    by (simp add: filter_empty_conv)
  show ?thesis
    unfolding compare_species_pure none Let_def
    by (simp add: map_of_fill total_loss_percent dict_get_default_def)
qed

theorem compare_species_same_year_witness:
  "compare_species_between_years
     [\<lparr>category = ''Finfish'', year = 2000, species = ''Anchovy'', pounds = 100\<rparr>] 2000 2000 =
   Inr \<lparr>species_comparison.year1 = 2000, year2 = 2000, year1_total = 100, year2_total = 0,
        species_changes =
          [(''Anchovy'', \<lparr>year1_pounds = 100, year2_pounds = 0, species_change.change = - 100,
                          species_change.percent_change = Some (- 100)\<rparr>)]\<rparr>"
proof -
  let ?fl = "[\<lparr>category = ''Finfish'', year = 2000, species = ''Anchovy'', pounds = 100\<rparr>]"
  obtain cmp where cmp: "compare_species_between_years ?fl 2000 2000 = Inr cmp"
    and "species_comparison.year2_total cmp = 0"
    using compare_species_same_year [of ?fl 2000] by blast
  moreover have "compare_species_between_years ?fl 2000 2000 =
   Inr \<lparr>species_comparison.year1 = 2000, year2 = 2000, year1_total = 100, year2_total = 0,
        species_changes =
          [(''Anchovy'', \<lparr>year1_pounds = 100, year2_pounds = 0, species_change.change = - 100,
                          species_change.percent_change = Some (- 100)\<rparr>)]\<rparr>"
    by code_simp
  ultimately show ?thesis
    by simp
qed

section \<open>Correlation of a constant series\<close>

text \<open>
  When the totals of all common years are the same integer, the model of
  \<^verbatim>\<open>calc_pearson\<close> does return the coefficient \<^verbatim>\<open>0.0\<close>: the mean of \<open>n\<close> copies of an
  integer is that integer, converted; the deviations, their squares and the sum of the
  squares are 0, and so is the denominator.
\<close>

lemma round_double_zero: "round_double 0 = 0"
  by (simp add: round_double_def)

lemma float_sum_zeros: "(\<And>x. x \<in> set xs \<Longrightarrow> x = 0) \<Longrightarrow> float_sum xs = 0"
proof -
  have "(\<And>x. x \<in> set xs \<Longrightarrow> x = 0) \<Longrightarrow> foldl float_add 0 xs = 0"
  proof (induction xs)
    case Nil
    then show ?case by simp
  next
    case (Cons a xs)
    have a: "a = 0"
      using Cons.prems by simp
    have "foldl float_add 0 (a # xs) = foldl float_add 0 xs"
      unfolding a by (simp add: float_add_def round_double_zero)
    also have "\<dots> = 0"
      using Cons by simp
    finally show ?case .
  qed
  then show "(\<And>x. x \<in> set xs \<Longrightarrow> x = 0) \<Longrightarrow> float_sum xs = 0"
    by (simp add: float_sum_def float_of_int_def round_double_zero)
qed

lemma sum_list_constant: "(\<And>x. x \<in> set xs \<Longrightarrow> x = v) \<Longrightarrow> sum_list xs = int (length xs) * (v::int)"
  by (induction xs) (simp_all add: algebra_simps)

lemma pearson_of_constant_fish:
  assumes "\<And>x. x \<in> set fish_values \<Longrightarrow> x = v" "fish_values \<noteq> []"
  shows "pearson_of fish_values oxygen_values (length fish_values) = Inr (0, length fish_values)"
proof -
  let ?n = "length fish_values"
  have n: "int ?n \<noteq> 0" "float_of_int (int ?n) \<noteq> 0"
    using assms(2) float_of_int_pos [of "int ?n"] by (auto simp: Suc_le_eq less_le)
  have "(of_int (sum_list fish_values) :: rat) / of_int (int ?n) = of_int v"
    using n(1) by (simp add: sum_list_constant [OF assms(1)])
  then have fm: "int_truediv (sum_list fish_values) (int ?n) = Inr (float_of_int v)"
    using n(1) by (simp add: int_truediv_def float_of_int_def)
  obtain om where om: "float_truediv (float_sum oxygen_values) (float_of_int (int ?n)) = Inr om"
    using n(2) by (simp add: float_truediv_def)
  have "float_sum (map (\<lambda>x. float_square (float_sub (float_of_int x) (float_of_int v))) fish_values) = 0"
    by (rule float_sum_zeros)
      (use assms(1) in \<open>auto simp: float_square_def float_sub_def round_double_zero\<close>)
  then have d: "math_sqrt (float_mul
        (float_sum (map (\<lambda>x. float_square (float_sub (float_of_int x) (float_of_int v))) fish_values))
        (float_sum (map (\<lambda>x. float_square (float_sub x om)) oxygen_values))) = Inr 0"
    by (simp add: float_mul_def round_double_zero math_sqrt_def)
  show ?thesis
    unfolding pearson_of_def fm om sum.case Let_def d by simp
qed

lemma lookup_all_constant:
  "(\<And>k. k \<in> set ks \<Longrightarrow> map_of d k = Some v) \<Longrightarrow> lookup_all d ks = Inr (replicate (length ks) v)"
  by (induction ks) (simp_all add: dict_get_def)

lemma calc_pearson_constant_fish:
  assumes fish: "total_fish_landings_per_year fish_list cat = Inr fish_by_year"
    and oxy: "average_oxygen_per_year water_list = Inr oxygen_by_year"
    and const: "\<And>y. y \<in> set (common_keys fish_by_year oxygen_by_year) \<Longrightarrow> map_of fish_by_year y = Some v"
  shows "calc_pearson fish_list water_list cat =
         Inr (0, length (common_keys fish_by_year oxygen_by_year))"
proof (cases "length (common_keys fish_by_year oxygen_by_year) < 2")
  case True
  then show ?thesis
    unfolding calc_pearson_def fish oxy by (simp add: Let_def)
next
  case False
  let ?common = "common_keys fish_by_year oxygen_by_year"
  let ?fs = "replicate (length ?common) v"
  have fs: "lookup_all fish_by_year ?common = Inr ?fs"
    using const by (rule lookup_all_constant)
  obtain os where os: "lookup_all oxygen_by_year ?common = Inr os"
    using lookup_all_returns [of ?common oxygen_by_year]
    by (auto simp: set_common_keys dict_keys_def)
  have "?fs \<noteq> []"
    using False by auto
  then have "pearson_of ?fs os (length ?fs) = Inr (0, length ?fs)"
    by (intro pearson_of_constant_fish [of _ v]) auto
  then have "pearson_of ?fs os (length ?common) = Inr (0, length ?common)"
    by simp
  with False show ?thesis
    unfolding calc_pearson_def fish oxy by (simp add: Let_def fs os)
qed

text \<open>
  A constant series of oxygen averages is different: its mean is computed in floating
  point and need not be the common value.
\<close>

lemma doubling_totals:
  "total_fish_landings_per_year doubling_fish_list None = Inr [(2000, 1), (2001, 2), (2002, 4)]"
  by (simp add: total_fish_landings_per_year_def doubling_fish_list_def skipped_def
      dict_contains_def dict_get_def)

lemma constant_oxygen_averages:
  "average_oxygen_per_year constant_water_list =
     Inr [(2000, (3602879701896397 / 36028797018963968)), (2001, (3602879701896397 / 36028797018963968)), (2002, (3602879701896397 / 36028797018963968))]"
  by code_simp

lemma doubling_common_years:
  "common_keys [(2000, 1::int), (2001, 2), (2002, 4)]
     [(2000, (3602879701896397 / 36028797018963968) :: pyfloat), (2001, (3602879701896397 / 36028797018963968)), (2002, (3602879701896397 / 36028797018963968))] = [2000, 2001, 2002]"
  by code_simp

lemma doubling_fish_values:
  "lookup_all [(2000::int, 1::int), (2001, 2), (2002, 4)] [2000, 2001, 2002] = Inr [1, 2, 4]"
  by (simp add: dict_get_def)

lemma constant_oxygen_values:
  "lookup_all [(2000::int, (3602879701896397 / 36028797018963968) :: pyfloat), (2001, (3602879701896397 / 36028797018963968)), (2002, (3602879701896397 / 36028797018963968))] [2000, 2001, 2002] =
     Inr [(3602879701896397 / 36028797018963968), (3602879701896397 / 36028797018963968), (3602879701896397 / 36028797018963968)]"
  by (simp add: dict_get_def)

lemma doubling_fish_mean: "int_truediv (sum_list [1, 2, 4]) (int 3) = Inr (5254199565265579 / 2251799813685248)"
  by code_simp

lemma constant_oxygen_mean:
  "float_truediv (float_sum [(3602879701896397 / 36028797018963968), (3602879701896397 / 36028797018963968), (3602879701896397 / 36028797018963968)]) (float_of_int (int 3)) = Inr (7205759403792795 / 72057594037927936)"
  by code_simp

lemma doubling_numerator:
  "float_sum (map (\<lambda>i. float_mul (float_sub (float_of_int ([1, 2, 4] ! i)) (5254199565265579 / 2251799813685248))
                                  (float_sub ([(3602879701896397 / 36028797018963968), (3602879701896397 / 36028797018963968), (3602879701896397 / 36028797018963968)] ! i) (7205759403792795 / 72057594037927936))) [0..<3]) =
     (1 / 162259276829213363391578010288128)"
  by code_simp

lemma doubling_fish_variance:
  "float_sum (map (\<lambda>x. float_square (float_sub (float_of_int x) (5254199565265579 / 2251799813685248))) [1, 2, 4]) =
     (2627099782632789 / 562949953421312)"
  by code_simp

lemma constant_oxygen_variance:
  "float_sum (map (\<lambda>x. float_square (float_sub x (7205759403792795 / 72057594037927936))) [(3602879701896397 / 36028797018963968), (3602879701896397 / 36028797018963968), (3602879701896397 / 36028797018963968)]) =
     (3 / 5192296858534827628530496329220096)"
  by code_simp

lemma doubling_denominator:
  "math_sqrt (float_mul (2627099782632789 / 562949953421312) (3 / 5192296858534827628530496329220096)) =
     Inr (8425463406411593 / 162259276829213363391578010288128)"
  by code_simp

lemma doubling_quotient:
  "float_truediv (1 / 162259276829213363391578010288128) (8425463406411593 / 162259276829213363391578010288128) =
     Inr (2407275258974741 / 20282409603651670423947251286016)"
  by code_simp

lemma doubling_pearson:
  "pearson_of [1, 2, 4] [(3602879701896397 / 36028797018963968), (3602879701896397 / 36028797018963968), (3602879701896397 / 36028797018963968)] 3 = Inr ((2407275258974741 / 20282409603651670423947251286016), 3)"
  unfolding pearson_of_def doubling_fish_mean constant_oxygen_mean sum.case Let_def
    doubling_numerator doubling_fish_variance constant_oxygen_variance doubling_denominator
    doubling_quotient
  by simp

text \<open>
  C2. Three years with the totals 1, 2 and 4 pounds and the same oxygen average
  \<^verbatim>\<open>0.1\<close> in each: every joined oxygen value is identical, and \<^verbatim>\<open>calc_pearson\<close> returns
  the coefficient \<^verbatim>\<open>1.18687833744435e-16\<close> (the fraction below), not \<^verbatim>\<open>0.0\<close>. The mean
  of three times \<^verbatim>\<open>0.1\<close> is rounded to \<^verbatim>\<open>0.10000000000000002\<close>, the deviations from
  it are not zero, and the test \<^verbatim>\<open>denominator == 0\<close> does not fire.
\<close>

theorem calc_pearson_constant_oxygen_not_zero:
  "total_fish_landings_per_year doubling_fish_list None = Inr [(2000, 1), (2001, 2), (2002, 4)] \<and>
   average_oxygen_per_year constant_water_list =
     Inr [(2000, (3602879701896397 / 36028797018963968)), (2001, (3602879701896397 / 36028797018963968)), (2002, (3602879701896397 / 36028797018963968))] \<and>
   calc_pearson doubling_fish_list constant_water_list None =
     Inr ((2407275258974741 / 20282409603651670423947251286016), 3)"
proof -
  have "pearson_of [1, 2, 4] [(3602879701896397 / 36028797018963968), (3602879701896397 / 36028797018963968), (3602879701896397 / 36028797018963968)] (length [2000::int, 2001, 2002]) =
        Inr ((2407275258974741 / 20282409603651670423947251286016), 3)"
    using doubling_pearson by (simp add: numeral_3_eq_3)
  then have "calc_pearson doubling_fish_list constant_water_list None =
     Inr ((2407275258974741 / 20282409603651670423947251286016), 3)"
    unfolding calc_pearson_def doubling_totals constant_oxygen_averages sum.case Let_def
      doubling_common_years doubling_fish_values constant_oxygen_values
    by simp
  then show ?thesis
    using doubling_totals constant_oxygen_averages by simp
qed

end
